theory Spec2Isabelle
  imports Complex_Main "HOL-Library.Multiset"
begin

section \<open>Data model\<close>

text \<open>
  The page scripts declare one record type, \<^verbatim>\<open>Product\<close> (index.vue:17-29). JavaScript
  numbers that hold counts and identifiers are integers here; prices, ratings and
  percentages are the exact real value of the number. The field \<^verbatim>\<open>id\<close> is written
  \<open>id'\<close>, since \<open>id\<close> is the identity function of HOL.
\<close>

record product =
  id' :: int
  title :: string
  description :: string
  price :: real
  discountPercentage :: real
  rating :: real
  stock :: int
  brand :: string
  category :: string
  thumbnail :: string
  images :: "string list"

text \<open>A toast handed to \<^verbatim>\<open>toast.add\<close> (index.vue:80-84).\<close>

record toast =
  toast_title :: string
  toast_color :: string
  toast_icon :: string

text \<open>
  The reactive state of the page (index.vue:31-38) together with the part of the
  environment the script acts on: the interval timers of the platform that are still
  armed, the next timer handle the platform will hand out, the number of pending
  \<^verbatim>\<open>setTimeout\<close> callbacks, the toasts shown and the console log. \<open>mounted\<close> tells
  whether the component is still on the page. \<open>rowSelection\<close> is the state of the
  table widget that the select column reads and writes: the ids of the selected rows
  (see the section on the widget).
\<close>

record component =
  data :: "product list"
  loading :: bool
  progress :: real
  progressInterval :: "nat option"
  currentPage :: int
  itemsPerPage :: int
  intervals :: "nat set"
  next_timer :: nat
  timeouts :: nat
  toasts :: "toast list"
  console :: "string list"
  mounted :: bool
  rowSelection :: "nat set"

text \<open>
  The state in which the script leaves its refs when the page is created
  (index.vue:31-38), with no timer armed and nothing shown or logged yet.
\<close>

definition initial :: component where
  "initial = \<lparr>data = [], loading = True, progress = 0, progressInterval = None,
     currentPage = 1, itemsPerPage = 10, intervals = {}, next_timer = 1, timeouts = 0,
     toasts = [], console = [], mounted = True, rowSelection = {}\<rparr>"

text \<open>Sample records and a sample loaded state, for the concrete evaluations below.\<close>

definition sample :: "int \<Rightarrow> string \<Rightarrow> product" where
  "sample i t = \<lparr>id' = i, title = t, description = [], price = 10,
     discountPercentage = 5, rating = 4, stock = 7, brand = [], category = [],
     thumbnail = [], images = []\<rparr>"

definition loaded :: "int \<Rightarrow> component" where
  "loaded n = initial\<lparr>data := map (\<lambda>i. sample i ''phone'') [1..n], loading := False\<rparr>"

section \<open>Pagination (index.vue:40-52)\<close>

text \<open>
  \<^verbatim>\<open>Array.prototype.slice(start, end)\<close> on integer arguments: a negative index counts
  from the end of the array, both indices are clamped to the array, and an empty range
  gives the empty array.
\<close>

definition array_slice :: "'a list \<Rightarrow> int \<Rightarrow> int \<Rightarrow> 'a list" where
  "array_slice xs start fin =
     (let len = int (length xs);
          k = (if start < 0 then max (len + start) 0 else min start len);
          final = (if fin < 0 then max (len + fin) 0 else min fin len)
      in take (nat (final - k)) (drop (nat k) xs))"

text \<open>
  \<^verbatim>\<open>const start = (currentPage.value - 1) * itemsPerPage.value
  return data.value.slice(start, start + itemsPerPage.value)\<close>
\<close>

definition paginatedData :: "component \<Rightarrow> product list" where
  "paginatedData s =
     (let start = (currentPage s - 1) * itemsPerPage s
      in array_slice (data s) start (start + itemsPerPage s))"

text \<open>
  The value of \<^verbatim>\<open>Math.ceil(data.value.length / itemsPerPage.value)\<close>. The division
  is the one of JavaScript numbers: a page size of zero gives \<^verbatim>\<open>Infinity\<close>, or
  \<^verbatim>\<open>NaN\<close> when the list is empty too.
\<close>

datatype js_number = JsInt int | JsInfinity | JsNaN

definition totalPages :: "component \<Rightarrow> js_number" where
  "totalPages s =
     (if itemsPerPage s = 0 then (if data s = [] then JsNaN else JsInfinity)
      else JsInt \<lceil>real (length (data s)) / real_of_int (itemsPerPage s)\<rceil>)"

text \<open>\<^verbatim>\<open>page <= totalPages.value\<close>: every comparison with \<^verbatim>\<open>NaN\<close> is false.\<close>

fun js_le :: "int \<Rightarrow> js_number \<Rightarrow> bool" where
  "js_le p (JsInt n) = (p \<le> n)"
| "js_le p JsInfinity = True"
| "js_le p JsNaN = False"

text \<open>
  \<^verbatim>\<open>function changePage(page: number) {
    if (page >= 1 && page <= totalPages.value) { currentPage.value = page }
  }\<close>
\<close>

definition changePage :: "int \<Rightarrow> component \<Rightarrow> component" where
  "changePage page s =
     (if page \<ge> 1 \<and> js_le page (totalPages s) then s\<lparr>currentPage := page\<rparr> else s)"

section \<open>The data loader (index.vue:55-95)\<close>

text \<open>
  What the two awaited promises of \<^verbatim>\<open>fetchProducts\<close> come to: the \<^verbatim>\<open>products\<close>
  field of the parsed envelope, a rejected \<^verbatim>\<open>fetch\<close>, or a rejected
  \<^verbatim>\<open>response.json()\<close>. The envelope is taken to be well typed: \<^verbatim>\<open>products\<close> is an
  array of records.
\<close>

datatype fetch_outcome = Products "product list" | FetchRejected | JsonRejected

text \<open>
  The platform's timers: \<^verbatim>\<open>setInterval\<close> arms a timer under a fresh handle and
  returns the handle, \<^verbatim>\<open>clearInterval\<close> disarms the timer with the given handle.
  A handle is always truthy (an object, or an integer greater than zero), so that the
  test \<^verbatim>\<open>if (progressInterval.value)\<close> asks whether a handle is stored.
\<close>

definition setInterval :: "component \<Rightarrow> nat \<times> component" where
  "setInterval s =
     (next_timer s, s\<lparr>intervals := insert (next_timer s) (intervals s),
                     next_timer := Suc (next_timer s)\<rparr>)"

definition clearInterval :: "nat \<Rightarrow> component \<Rightarrow> component" where
  "clearInterval h s = s\<lparr>intervals := intervals s - {h}\<rparr>"

text \<open>
  The callback of the interval (index.vue:60-65), run with the value \<open>r\<close> that
  \<^verbatim>\<open>Math.random()\<close> returns:
  \<^verbatim>\<open>progress.value = Math.min(progress.value + Math.random() * 15, 95)
  if (progress.value >= 95 && progressInterval.value) {
    clearInterval(progressInterval.value)
  }\<close>
\<close>

definition progress_callback :: "real \<Rightarrow> component \<Rightarrow> component" where
  "progress_callback r s =
     (let s1 = s\<lparr>progress := min (progress s + r * 15) 95\<rparr>
      in if progress s1 \<ge> 95 \<and> progressInterval s1 \<noteq> None
         then clearInterval (the (progressInterval s1)) s1 else s1)"

text \<open>
  The callback of the second page script of the file (index.vue:471-479):
  \<^verbatim>\<open>progress.value += Math.random() * 15
  if (progress.value >= 95) {
    progress.value = 95
    if (progressInterval.value) { clearInterval(progressInterval.value) }
  }\<close>
\<close>

definition progress_callback2 :: "real \<Rightarrow> component \<Rightarrow> component" where
  "progress_callback2 r s =
     (let s1 = s\<lparr>progress := progress s + r * 15\<rparr>
      in if progress s1 \<ge> 95
         then (let s2 = s1\<lparr>progress := 95\<rparr>
               in if progressInterval s2 \<noteq> None
                  then clearInterval (the (progressInterval s2)) s2 else s2)
         else s1)"

text \<open>The platform runs the callback of a timer only while the timer is armed.\<close>

definition tick :: "nat \<Rightarrow> real \<Rightarrow> component \<Rightarrow> component" where
  "tick h r s = (if h \<in> intervals s then progress_callback r s else s)"

text \<open>
  \<^verbatim>\<open>fetchProducts\<close> up to its first \<^verbatim>\<open>await\<close> (index.vue:56-68): the flags are
  reset and the interval is armed, its handle stored in \<^verbatim>\<open>progressInterval\<close>.
\<close>

definition fetchProducts_begin :: "component \<Rightarrow> component" where
  "fetchProducts_begin s =
     (let s1 = s\<lparr>loading := True, progress := 0\<rparr>;
          (h, s2) = setInterval s1
      in s2\<lparr>progressInterval := Some h\<rparr>)"

text \<open>
  The \<^verbatim>\<open>finally\<close> block (index.vue:86-90).
\<close>

definition fetchProducts_finally :: "component \<Rightarrow> component" where
  "fetchProducts_finally s =
     (if progressInterval s \<noteq> None then clearInterval (the (progressInterval s)) s else s)"

definition error_toast :: toast where
  "error_toast = \<lparr>toast_title = ''Error fetching products'', toast_color = ''error'',
     toast_icon = ''i-lucide-alert-circle''\<rparr>"

text \<open>
  The rest of \<^verbatim>\<open>fetchProducts\<close>, run when the awaited promises settle
  (index.vue:69-90): the body of \<^verbatim>\<open>try\<close> on success, the \<^verbatim>\<open>catch\<close> block when
  either promise rejects, and the \<^verbatim>\<open>finally\<close> block in both cases. On success a
  timeout of 500 ms is left pending.
\<close>

definition fetchProducts_settle :: "fetch_outcome \<Rightarrow> component \<Rightarrow> component" where
  "fetchProducts_settle outcome s =
     fetchProducts_finally
       (case outcome of
          Products ps \<Rightarrow> s\<lparr>data := ps, progress := 100, timeouts := Suc (timeouts s)\<rparr>
        | _ \<Rightarrow> s\<lparr>console := console s @ [''Error fetching products:''],
                 toasts := toasts s @ [error_toast],
                 loading := False\<rparr>)"

text \<open>The callback of the timeout (index.vue:74-76), run once per pending timeout.\<close>

definition timeout_callback :: "component \<Rightarrow> component" where
  "timeout_callback s =
     (if timeouts s = 0 then s else s\<lparr>loading := False, timeouts := timeouts s - 1\<rparr>)"

text \<open>
  One whole load with nothing else in between: the start, the ticks of the load's own
  timer while the request is pending (one random value for each), and the settlement.
\<close>

definition fetchProducts :: "real list \<Rightarrow> fetch_outcome \<Rightarrow> component \<Rightarrow> component" where
  "fetchProducts rs outcome s =
     fetchProducts_settle outcome (fold (tick (next_timer s)) rs (fetchProducts_begin s))"

text \<open>
  The loader of the third page script (part_000:33-45), which has no progress timer and
  no toasts:
  \<^verbatim>\<open>loading.value = true
  try { ...; data.value = result.products }
  catch (error) { console.error('Error fetching products:', error) }
  finally { loading.value = false }\<close>
\<close>

definition fetchProducts3 :: "fetch_outcome \<Rightarrow> component \<Rightarrow> component" where
  "fetchProducts3 outcome s =
     (let s1 = s\<lparr>loading := True\<rparr>;
          s2 = (case outcome of
                  Products ps \<Rightarrow> s1\<lparr>data := ps\<rparr>
                | _ \<Rightarrow> s1\<lparr>console := console s1 @ [''Error fetching products:'']\<rparr>)
      in s2\<lparr>loading := False\<rparr>)"

text \<open>
  Mounting runs the loader (index.vue:93-95). No script registers a hook for unmounting,
  so that taking the component off the page runs no code of the page: the timers of the
  platform stay as they are.
\<close>

definition onMounted :: "component \<Rightarrow> component" where
  "onMounted s = fetchProducts_begin (s\<lparr>mounted := True\<rparr>)"

definition unmount :: "component \<Rightarrow> component" where
  "unmount s = s\<lparr>mounted := False\<rparr>"

section \<open>Shuffling (index.vue:230-232)\<close>

text \<open>
  \<^verbatim>\<open>Array.prototype.sort(comparefn)\<close> belongs to the platform and is not part of the
  page scripts; the platform is free in the choice of its algorithm. It is a parameter
  of the shuffle: a function from the comparator and the array to the array it returns.
  The comparator gets the number of the call, so that it can draw a new random value on
  every call.
\<close>

type_synonym 'a array_sort = "(nat \<Rightarrow> 'a \<Rightarrow> 'a \<Rightarrow> real) \<Rightarrow> 'a list \<Rightarrow> 'a list"

text \<open>
  \<^verbatim>\<open>data.value = [...data.value].sort(() => Math.random() - 0.5)\<close>, where \<open>rnd k\<close> is
  the value of the \<open>k\<close>-th call of \<^verbatim>\<open>Math.random()\<close> and \<open>sort_fn\<close> is the sort of
  the platform, run on a copy of the list.
\<close>

definition randomize :: "product array_sort \<Rightarrow> (nat \<Rightarrow> real) \<Rightarrow> component \<Rightarrow> component" where
  "randomize sort_fn rnd s = s\<lparr>data := sort_fn (\<lambda>k a b. rnd k - 0.5) (data s)\<rparr>"

text \<open>
  One sort a platform could run, as an instance for concrete evaluation: an insertion
  sort that asks \<open>comparefn\<close> once for each comparison, \<open>comparefn k x y > 0\<close> placing
  \<open>x\<close> after \<open>y\<close>, with the counter of calls threaded through. Engines run other
  algorithms and give other orders; nothing below depends on the order it gives.
\<close>

fun insert_by :: "(nat \<Rightarrow> 'a \<Rightarrow> 'a \<Rightarrow> real) \<Rightarrow> nat \<Rightarrow> 'a \<Rightarrow> 'a list \<Rightarrow> 'a list \<times> nat" where
  "insert_by comparefn k x [] = ([x], k)"
| "insert_by comparefn k x (y # ys) =
     (if comparefn k x y > 0
      then (case insert_by comparefn (Suc k) x ys of (zs, k') \<Rightarrow> (y # zs, k'))
      else (x # y # ys, Suc k))"

fun insertion_pass :: "(nat \<Rightarrow> 'a \<Rightarrow> 'a \<Rightarrow> real) \<Rightarrow> nat \<Rightarrow> 'a list \<Rightarrow> 'a list \<times> nat" where
  "insertion_pass comparefn k [] = ([], k)"
| "insertion_pass comparefn k (x # xs) =
     (case insertion_pass comparefn k xs of (ys, k') \<Rightarrow> insert_by comparefn k' x ys)"

definition insertion_sort :: "'a array_sort" where
  "insertion_sort comparefn xs = fst (insertion_pass comparefn 0 xs)"

section \<open>Events of the page\<close>

text \<open>
  Everything that runs code of the page after it was created: a click on reload or the
  mount (\<open>Load\<close>), a tick of a timer, the settlement of a pending request, the timeout
  that hides the progress bar, the two page buttons, the shuffle button, and the
  component leaving the page. The sort of the platform is the same for a whole run.
\<close>

datatype event =
    Load
  | Tick nat real
  | Settle fetch_outcome
  | Timeout
  | ChangePage int
  | Randomize "nat \<Rightarrow> real"
  | Unmount

fun apply_event :: "product array_sort \<Rightarrow> event \<Rightarrow> component \<Rightarrow> component" where
  "apply_event sort_fn Load s = fetchProducts_begin s"
| "apply_event sort_fn (Tick h r) s = tick h r s"
| "apply_event sort_fn (Settle outcome) s = fetchProducts_settle outcome s"
| "apply_event sort_fn Timeout s = timeout_callback s"
| "apply_event sort_fn (ChangePage p) s = changePage p s"
| "apply_event sort_fn (Randomize rnd) s = randomize sort_fn rnd s"
| "apply_event sort_fn Unmount s = unmount s"

fun is_Load :: "event \<Rightarrow> bool" where
  "is_Load Load = True"
| "is_Load _ = False"

section \<open>The table widget\<close>

text \<open>
  Modelled from the spec: the column filter of the table widget (\<^verbatim>\<open>UTable\<close>,
  \<^verbatim>\<open>setFilterValue\<close> on the title column), which lives in the component library and not
  in the page script. The spec (4.2) has it keep the rows "whose title contains
  filterText", the empty filter keeping every row.
\<close>

fun startsWith :: "'a list \<Rightarrow> 'a list \<Rightarrow> bool" where
  "startsWith _ [] = True"
| "startsWith [] (_ # _) = False"
| "startsWith (c # cs) (d # ds) = (c = d \<and> startsWith cs ds)"

fun containsText :: "'a list \<Rightarrow> 'a list \<Rightarrow> bool" where
  "containsText [] needle = (needle = [])"
| "containsText (c # cs) needle = (startsWith (c # cs) needle \<or> containsText cs needle)"

definition title_filter :: "string \<Rightarrow> product list \<Rightarrow> product list" where
  "title_filter filterText rows = filter (\<lambda>p. containsText (title p) filterText) rows"

text \<open>
  The rows the table of the first page script works on (index.vue:342-346): the widget
  is handed \<^verbatim>\<open>paginatedData\<close> as its \<^verbatim>\<open>data\<close>, and applies its filter to what it is
  handed.
\<close>

definition tableRows :: "string \<Rightarrow> component \<Rightarrow> product list" where
  "tableRows filterText s = title_filter filterText (paginatedData s)"

text \<open>
  The derivation in the spec's words (4.2), for comparison: first the filter on the whole
  data set, then the slice \<open>[pageIndex * pageSize, pageIndex * pageSize + pageSize)\<close>, with
  \<open>pageIndex = currentPage - 1\<close>.
\<close>

definition spec_visibleRows :: "string \<Rightarrow> component \<Rightarrow> product list" where
  "spec_visibleRows filterText s =
     (let start = (currentPage s - 1) * itemsPerPage s
      in array_slice (title_filter filterText (data s)) start (start + itemsPerPage s))"

text \<open>
  The selection of rows is kept by the table widget, which is not part of the page
  scripts: the select column only calls \<^verbatim>\<open>row.toggleSelected\<close> and
  \<^verbatim>\<open>row.getIsSelected\<close> on the row it renders (index.vue:104-108). The widget keeps
  the set of the ids of the selected rows. The first page script hands the table
  \<^verbatim>\<open>paginatedData\<close> and no function for row ids (index.vue:342-349), so that a row
  has the id the table library gives by default: its index in the array the table is
  handed.
\<close>

definition getRowId :: "product \<Rightarrow> nat \<Rightarrow> nat" where
  "getRowId originalRow index = index"

text \<open>
  \<^verbatim>\<open>row.toggleSelected(!!value)\<close> and \<^verbatim>\<open>row.getIsSelected()\<close> for the row shown at
  position \<open>index\<close> of the table; there is no row to act on beyond the rows handed over.
\<close>

definition toggleSelected :: "bool \<Rightarrow> nat \<Rightarrow> component \<Rightarrow> component" where
  "toggleSelected v index s =
     (if index < length (paginatedData s)
      then (let rowId = getRowId (paginatedData s ! index) index
            in s\<lparr>rowSelection :=
                   (if v then insert rowId (rowSelection s) else rowSelection s - {rowId})\<rparr>)
      else s)"

definition getIsSelected :: "nat \<Rightarrow> component \<Rightarrow> bool" where
  "getIsSelected index s =
     (index < length (paginatedData s) \<and>
      getRowId (paginatedData s ! index) index \<in> rowSelection s)"

text \<open>The rows of the current page whose checkbox is shown checked, in their order.\<close>

definition selectedRows :: "component \<Rightarrow> product list" where
  "selectedRows s =
     map snd (filter (\<lambda>(index, row). getRowId row index \<in> rowSelection s)
                     (enumerate 0 (paginatedData s)))"

section \<open>Cell and panel rendering\<close>

text \<open>
  The panel of an expanded row (index.vue:350-378): the images are
  \<^verbatim>\<open>row.original.images.slice(0, 3)\<close>, each with the alternative text made of the title
  and \<open>idx + 1\<close>; the discount badge shows \<^verbatim>\<open>discountPercentage\<close>; the stock badge shows
  \<^verbatim>\<open>stock\<close> in the colour \<^verbatim>\<open>row.original.stock > 50 ? 'success' : 'warning'\<close>.
\<close>

record panel_image =
  img_src :: string
  img_alt_title :: string
  img_alt_number :: nat

record panel =
  panel_images :: "panel_image list"
  panel_title :: string
  panel_description :: string
  panel_discount :: real
  panel_stock :: int
  panel_stock_color :: string

definition expanded :: "product \<Rightarrow> panel" where
  "expanded p =
     \<lparr>panel_images =
        map (\<lambda>(idx, image). \<lparr>img_src = image, img_alt_title = title p, img_alt_number = idx + 1\<rparr>)
            (enumerate 0 (array_slice (images p) 0 3)),
      panel_title = title p,
      panel_description = description p,
      panel_discount = discountPercentage p,
      panel_stock = stock p,
      panel_stock_color = (if stock p > 50 then ''success'' else ''warning'')\<rparr>"

text \<open>The decimal digits of a natural number, as \<^verbatim>\<open>ToString\<close> writes them.\<close>

fun digits :: "nat \<Rightarrow> string" where
  "digits n = (if n < 10 then [''0123456789'' ! n] else digits (n div 10) @ [''0123456789'' ! (n mod 10)])"

declare digits.simps [simp del]

text \<open>
  \<^verbatim>\<open>Number.prototype.toFixed(1)\<close> on the real value \<open>x\<close> of a finite number, as ECMAScript
  defines it: the sign is split off, \<open>n\<close> is the integer for which \<open>n / 10 - x\<close> is as
  close to zero as possible (the larger one if there are two), and the digits of \<open>n\<close>
  are written with a point before the last one. From \<open>10^21\<close> on the method falls back on
  \<^verbatim>\<open>ToString\<close>, which is not modelled: the result is \<open>None\<close> there.
\<close>

definition toFixed1 :: "real \<Rightarrow> string option" where
  "toFixed1 x =
     (let a = \<bar>x\<bar>; n = nat \<lfloor>a * 10 + 1 / 2\<rfloor>
      in if a \<ge> 10 ^ 21 then None
         else Some ((if x < 0 then ''-'' else []) @ digits (n div 10) @ ''.'' @ digits (n mod 10)))"

text \<open>
  The cell of the rating column (index.vue:163-167, 559-564; part_000:85-90):
  \<^verbatim>\<open>const rating = Number(row.getValue('rating'))
  const textColor = rating >= 4.5 ? 'text-green-500' : 'text-red-500'
  return h('div', { class: `font-medium ${textColor}` }, rating.toFixed(1))\<close>
\<close>

record cell =
  cell_class :: string
  cell_text :: "string option"

definition rating_cell :: "product \<Rightarrow> cell" where
  "rating_cell p =
     (let textColor = (if rating p \<ge> 4.5 then ''text-green-500'' else ''text-red-500'')
      in \<lparr>cell_class = ''font-medium '' @ textColor, cell_text = toFixed1 (rating p)\<rparr>)"

section \<open>Predicates and sample states of the claims\<close>

text \<open>
  The page invariant of the spec (3), on the loaded rows: the page size is positive, the
  current page is at least 1, and the index of its first row,
  \<open>pageIndex * pageSize\<close> with \<open>pageIndex = currentPage - 1\<close>, does not exceed the
  number of rows minus one.
\<close>

definition page_in_range :: "component \<Rightarrow> bool" where
  "page_in_range s =
     (0 < itemsPerPage s \<and> 1 \<le> currentPage s \<and>
      (currentPage s - 1) * itemsPerPage s \<le> int (length (data s)) - 1)"

text \<open>A sample state: ten products titled "phone" followed by one titled "lamp".\<close>

definition shop :: component where
  "shop = initial\<lparr>data := map (\<lambda>i. sample i ''phone'') [1..10] @ [sample 11 ''lamp''],
                  loading := False\<rparr>"

text \<open>
  A run of the page from its creation: the first load brings 25 products and the
  progress bar is hidden, the button for the next page is clicked twice; then reload is
  clicked and brings 5 products.
\<close>

definition on_page_3 :: component where
  "on_page_3 =
     changePage 3 (changePage 2 (timeout_callback
       (fetchProducts [] (Products (map (\<lambda>i. sample i ''phone'') [1..25])) initial)))"

definition after_reload :: component where
  "after_reload =
     timeout_callback
       (fetchProducts [] (Products (map (\<lambda>i. sample i ''phone'') [1..5])) on_page_3)"

section \<open>Facts about slicing and page counts\<close>

lemma array_slice_nonneg:
  "0 \<le> a \<Longrightarrow> 0 \<le> b \<Longrightarrow> array_slice xs a b = take (nat (b - a)) (drop (nat a) xs)"
  by (auto simp: array_slice_def Let_def min_def)

lemma set_array_slice: "set (array_slice xs a b) \<subseteq> set xs"
proof -
  have "set (take n (drop m xs)) \<subseteq> set xs" for n m
    by (meson set_drop_subset set_take_subset subset_trans)
  then show ?thesis
    by (simp add: array_slice_def Let_def)
qed

lemma le_ceiling_pages:
  assumes "0 < k"
  shows "(p \<le> \<lceil>real n / real_of_int k\<rceil>) = ((p - 1) * k < int n)"
proof -
  have "(p \<le> \<lceil>real n / real_of_int k\<rceil>) = (p - 1 < \<lceil>real n / real_of_int k\<rceil>)"
    by linarith
  also have "\<dots> = (real_of_int (p - 1) < real n / real_of_int k)"
    by (rule less_ceiling_iff)
  also have "\<dots> = (real_of_int (p - 1) * real_of_int k < real n)"
    using assms by (simp add: pos_less_divide_eq)
  also have "\<dots> = (real_of_int ((p - 1) * k) < real_of_int (int n))"
    by simp
  also have "\<dots> = ((p - 1) * k < int n)"
    by (rule of_int_less_iff)
  finally show ?thesis .
qed

lemma js_le_totalPages:
  "0 < itemsPerPage s \<Longrightarrow>
   js_le p (totalPages s) = ((p - 1) * itemsPerPage s < int (length (data s)))"
  by (simp add: totalPages_def le_ceiling_pages)

section \<open>Facts about the shuffle\<close>

lemma data_randomize: "data (randomize sort_fn rnd s) = sort_fn (\<lambda>k a b. rnd k - 0.5) (data s)"
  by (simp add: randomize_def)

text \<open>The insertion sort is an instance of a sort that rearranges its input.\<close>

lemma mset_insert_by: "mset (fst (insert_by c k x ys)) = add_mset x (mset ys)"
proof (induction ys arbitrary: k)
  case Nil
  show ?case by simp
next
  case (Cons y ys)
  obtain zs k' where r: "insert_by c (Suc k) x ys = (zs, k')"
    by (cases "insert_by c (Suc k) x ys")
  with Cons [of "Suc k"] have "mset zs = add_mset x (mset ys)" by simp
  with r show ?case by simp
qed

lemma mset_insertion_pass: "mset (fst (insertion_pass c k xs)) = mset xs"
proof (induction xs arbitrary: k)
  case Nil
  show ?case by simp
next
  case (Cons x xs)
  obtain ys k' where r: "insertion_pass c k xs = (ys, k')"
    by (cases "insertion_pass c k xs")
  with Cons [of k] have "mset ys = mset xs" by simp
  with r show ?case by (simp add: mset_insert_by)
qed

lemma mset_insertion_sort: "mset (insertion_sort c xs) = mset xs"
  by (simp add: insertion_sort_def mset_insertion_pass)

section \<open>Facts about the filter\<close>

text \<open>\<open>containsText\<close> is containment of a contiguous piece.\<close>

lemma startsWith_iff: "startsWith xs ys = (\<exists>zs. xs = ys @ zs)"
  by (induction xs ys rule: startsWith.induct) auto

lemma containsText_iff: "containsText xs ys = (\<exists>as bs. xs = as @ ys @ bs)"
proof (induction xs)
  case Nil
  show ?case by auto
next
  case (Cons c cs)
  show ?case
  proof
    assume "containsText (c # cs) ys"
    then consider "startsWith (c # cs) ys" | "containsText cs ys" by auto
    then show "\<exists>as bs. c # cs = as @ ys @ bs"
    proof cases
      case 1
      then obtain zs where "c # cs = [] @ ys @ zs" by (auto simp: startsWith_iff)
      then show ?thesis by blast
    next
      case 2
      with Cons obtain as bs where "cs = as @ ys @ bs" by auto
      then have "c # cs = (c # as) @ ys @ bs" by simp
      then show ?thesis by blast
    qed
  next
    assume "\<exists>as bs. c # cs = as @ ys @ bs"
    then obtain as bs where e: "c # cs = as @ ys @ bs" by auto
    show "containsText (c # cs) ys"
    proof (cases as)
      case Nil
      with e have "startsWith (c # cs) ys" by (auto simp: startsWith_iff)
      then show ?thesis by simp
    next
      case (Cons a as')
      with e have "cs = as' @ ys @ bs" by simp
      with Cons.IH have "containsText cs ys" by auto
      then show ?thesis by simp
    qed
  qed
qed

section \<open>Facts about the loader and its timer\<close>

lemma progress_clearInterval: "progress (clearInterval h s) = progress s"
  by (simp add: clearInterval_def)

lemma progress_callback_le: "progress (progress_callback r s) \<le> 95"
  by (simp add: progress_callback_def Let_def progress_clearInterval)

lemma progress_callback2_le: "progress (progress_callback2 r s) \<le> 95"
  by (simp add: progress_callback2_def Let_def progress_clearInterval)

lemma progress_tick_le: "progress s \<le> 95 \<Longrightarrow> progress (tick h r s) \<le> 95"
  by (simp add: tick_def progress_callback_le)

lemma progress_ticks_le: "progress s \<le> 95 \<Longrightarrow> progress (fold (tick h) rs s) \<le> 95"
  by (induction rs arbitrary: s) (simp_all add: progress_tick_le)

lemma progress_settle_ok: "progress (fetchProducts_settle (Products ps) s) = 100"
  by (simp add: fetchProducts_settle_def fetchProducts_finally_def progress_clearInterval)

lemma data_tick: "data (tick h r s) = data s"
  by (simp add: tick_def progress_callback_def Let_def clearInterval_def)

lemma data_ticks: "data (fold (tick h) rs s) = data s"
  by (induction rs arbitrary: s) (simp_all add: data_tick)

lemma toasts_tick: "toasts (tick h r s) = toasts s"
  by (simp add: tick_def progress_callback_def Let_def clearInterval_def)

lemma toasts_ticks: "toasts (fold (tick h) rs s) = toasts s"
  by (induction rs arbitrary: s) (simp_all add: toasts_tick)

lemma fetchProducts_begin_fields:
  "data (fetchProducts_begin s) = data s"
  "toasts (fetchProducts_begin s) = toasts s"
  "progress (fetchProducts_begin s) = 0"
  "progressInterval (fetchProducts_begin s) = Some (next_timer s)"
  "next_timer (fetchProducts_begin s) = Suc (next_timer s)"
  "intervals (fetchProducts_begin s) = insert (next_timer s) (intervals s)"
  by (simp_all add: fetchProducts_begin_def setInterval_def Let_def)

lemma settle_failed:
  "outcome = FetchRejected \<or> outcome = JsonRejected \<Longrightarrow>
   fetchProducts_settle outcome s =
     s\<lparr>console := console s @ [''Error fetching products:''],
       toasts := toasts s @ [error_toast], loading := False,
       intervals := intervals s - set_option (progressInterval s)\<rparr>"
  by (cases "progressInterval s")
     (auto simp: fetchProducts_settle_def fetchProducts_finally_def clearInterval_def)

lemma settle_disarms:
  "progressInterval s = Some h \<Longrightarrow> h \<notin> intervals (fetchProducts_settle outcome s)"
  by (cases outcome)
     (simp_all add: fetchProducts_settle_def fetchProducts_finally_def clearInterval_def)

lemma next_timer_settle: "next_timer (fetchProducts_settle outcome s) = next_timer s"
  by (cases outcome)
     (simp_all add: fetchProducts_settle_def fetchProducts_finally_def clearInterval_def)

text \<open>Only the start of a load writes \<^verbatim>\<open>progressInterval\<close>.\<close>

lemma progressInterval_apply_event:
  "\<not> is_Load e \<Longrightarrow> progressInterval (apply_event sort_fn e s) = progressInterval s"
  by (cases e)
     (auto simp: tick_def progress_callback_def Let_def clearInterval_def
        fetchProducts_settle_def fetchProducts_finally_def timeout_callback_def
        changePage_def randomize_def unmount_def split: fetch_outcome.splits)

lemma progressInterval_events:
  "\<forall>e \<in> set es. \<not> is_Load e \<Longrightarrow>
   progressInterval (fold (apply_event sort_fn) es s) = progressInterval s"
  by (induction es arbitrary: s) (simp_all add: progressInterval_apply_event)

text \<open>Handles are handed out in increasing order, and only fresh ones are armed.\<close>

lemma intervals_apply_event:
  "intervals (apply_event sort_fn e s) \<subseteq> insert (next_timer s) (intervals s)"
  by (cases e)
     (auto simp: tick_def progress_callback_def Let_def clearInterval_def
        fetchProducts_settle_def fetchProducts_finally_def timeout_callback_def
        changePage_def randomize_def unmount_def fetchProducts_begin_def setInterval_def
        split: fetch_outcome.splits if_splits)

lemma next_timer_apply_event: "next_timer s \<le> next_timer (apply_event sort_fn e s)"
  by (cases e)
     (auto simp: tick_def progress_callback_def Let_def clearInterval_def
        fetchProducts_settle_def fetchProducts_finally_def timeout_callback_def
        changePage_def randomize_def unmount_def fetchProducts_begin_def setInterval_def
        split: fetch_outcome.splits)

lemma next_timer_events: "next_timer s \<le> next_timer (fold (apply_event sort_fn) es s)"
proof (induction es arbitrary: s)
  case Nil
  show ?case by simp
next
  case (Cons e es)
  have "next_timer s \<le> next_timer (apply_event sort_fn e s)"
    by (rule next_timer_apply_event)
  also have "\<dots> \<le> next_timer (fold (apply_event sort_fn) es (apply_event sort_fn e s))"
    by (rule Cons.IH)
  finally show ?case by simp
qed

lemma disarmed_stays:
  "h < next_timer s \<Longrightarrow> h \<notin> intervals s \<Longrightarrow>
   h \<notin> intervals (fold (apply_event sort_fn) es s)"
proof (induction es arbitrary: s)
  case Nil
  then show ?case by simp
next
  case (Cons e es)
  have "h < next_timer (apply_event sort_fn e s)"
    using Cons.prems(1) next_timer_apply_event [of s sort_fn e] by simp
  moreover have "h \<notin> intervals (apply_event sort_fn e s)"
    using Cons.prems intervals_apply_event [of sort_fn e s] by auto
  ultimately show ?case
    using Cons.IH by simp
qed

text \<open>
  The tick that brings the progress value to the cap disarms the timer whose handle is
  stored.
\<close>

lemma cap_disarms:
  "progressInterval s = Some h \<Longrightarrow> 95 \<le> progress s + r * 15 \<Longrightarrow>
   h \<notin> intervals (tick h r s)"
  by (simp add: tick_def progress_callback_def Let_def clearInterval_def)

text \<open>
  Two loads that overlap: the second start overwrites the stored handle, both
  settlements disarm the second timer, and the timer of the first load stays armed.
\<close>

lemma overlapping_loads_leave_timer:
  "intervals (fold (apply_event sort_fn)
     [Load, Load, Settle (Products []), Settle (Products [])] initial) = {1}"
  by (simp add: fetchProducts_begin_def setInterval_def initial_def Let_def
       fetchProducts_settle_def fetchProducts_finally_def clearInterval_def)

section \<open>Facts about the page range\<close>

lemma page_in_range_changePage:
  assumes "page_in_range s"
  shows "page_in_range (changePage p s)"
proof (cases "p \<ge> 1 \<and> js_le p (totalPages s)")
  case True
  moreover from assms have k: "0 < itemsPerPage s"
    by (simp add: page_in_range_def)
  ultimately have "(p - 1) * itemsPerPage s < int (length (data s))"
    by (simp add: js_le_totalPages)
  with True k show ?thesis
    by (simp add: changePage_def page_in_range_def)
next
  case False
  with assms show ?thesis
    by (auto simp: changePage_def)
qed

lemma page_in_range_nonempty:
  assumes "page_in_range s"
  shows "paginatedData s \<noteq> []"
proof -
  let ?a = "(currentPage s - 1) * itemsPerPage s"
  from assms have k: "0 < itemsPerPage s" and a0: "0 \<le> ?a"
    and a1: "?a < int (length (data s))"
    by (simp_all add: page_in_range_def)
  have "paginatedData s = take (nat (itemsPerPage s)) (drop (nat ?a) (data s))"
    using k a0 by (simp add: paginatedData_def Let_def array_slice_nonneg)
  moreover have "drop (nat ?a) (data s) \<noteq> []"
    using a0 a1 by simp
  ultimately show ?thesis
    using k by simp
qed

text \<open>
  The first load puts the page in range as soon as it brings a row, and a later reload
  keeps it in range exactly when it brings more rows than lie before the current page.
\<close>

lemma page_fields_ticks:
  "currentPage (fold (tick h) rs s) = currentPage s \<and>
   itemsPerPage (fold (tick h) rs s) = itemsPerPage s"
  by (induction rs arbitrary: s)
     (simp_all add: tick_def progress_callback_def Let_def clearInterval_def)

lemma first_load_in_range:
  assumes "ps \<noteq> []"
  shows "page_in_range (fetchProducts rs (Products ps) initial)"
proof -
  have "currentPage (fetchProducts_begin initial) = 1"
    "itemsPerPage (fetchProducts_begin initial) = 10"
    by (simp_all add: fetchProducts_begin_def setInterval_def Let_def initial_def)
  moreover from assms have "0 < length ps"
    by simp
  ultimately show ?thesis
    by (simp add: fetchProducts_def page_in_range_def fetchProducts_settle_def
          fetchProducts_finally_def clearInterval_def page_fields_ticks)
qed

lemma reload_keeps_range_iff:
  assumes "0 < itemsPerPage s" and "1 \<le> currentPage s"
  shows "page_in_range (fetchProducts_settle (Products ps) s) =
         ((currentPage s - 1) * itemsPerPage s < int (length ps))"
  using assms
  by (auto simp: page_in_range_def fetchProducts_settle_def fetchProducts_finally_def
        clearInterval_def)

text \<open>
  The button for the next page asks for \<open>currentPage + 1\<close> (index.vue:395): from a state
  in range, a request beyond the last page changes nothing and the page stays the last.
\<close>

lemma next_beyond_last_stays_on_last:
  assumes "page_in_range s" and "\<not> js_le (currentPage s + 1) (totalPages s)"
  shows "changePage (currentPage s + 1) s = s \<and> js_le (currentPage s) (totalPages s)"
proof -
  from assms(1) have k: "0 < itemsPerPage s"
    and "(currentPage s - 1) * itemsPerPage s < int (length (data s))"
    by (simp_all add: page_in_range_def)
  then have "js_le (currentPage s) (totalPages s)"
    by (simp add: js_le_totalPages)
  with assms(2) show ?thesis
    by (simp add: changePage_def)
qed

section \<open>Facts about selection and rendering\<close>

text \<open>A page change leaves the set of selected row ids as it is.\<close>

lemma rowSelection_changePage: "rowSelection (changePage n s) = rowSelection s"
  by (simp add: changePage_def)

lemma expanded_sources: "map img_src (panel_images (expanded p)) = take 3 (images p)"
proof -
  have "map img_src (panel_images (expanded p)) =
        map snd (enumerate 0 (array_slice (images p) 0 3))"
    by (simp add: expanded_def case_prod_unfold comp_def)
  then show ?thesis
    by (simp add: array_slice_nonneg)
qed

lemma expanded_numbers:
  "map img_alt_number (panel_images (expanded p)) = [1 ..< Suc (min 3 (length (images p)))]"
proof -
  have Suc_fst: "map (\<lambda>x. Suc (fst x)) zs = map Suc (map fst zs)"
    for zs :: "(nat \<times> string) list"
    by (simp add: comp_def)
  have "map img_alt_number (panel_images (expanded p)) =
        map (\<lambda>x. Suc (fst x)) (enumerate 0 (array_slice (images p) 0 3))"
    by (simp add: expanded_def case_prod_unfold comp_def)
  also have "\<dots> = map Suc (map fst (enumerate 0 (array_slice (images p) 0 3)))"
    by (rule Suc_fst)
  also have "\<dots> = map Suc [0 ..< min 3 (length (images p))]"
    by (simp add: array_slice_nonneg min.commute)
  also have "\<dots> = [1 ..< Suc (min 3 (length (images p)))]"
    by (simp add: map_Suc_upt)
  finally show ?thesis .
qed

lemma digit_char: "k < 10 \<Longrightarrow> ''0123456789'' ! k \<in> set ''0123456789''"
  by (rule nth_mem) simp

lemma set_digits: "set (digits n) \<subseteq> set ''0123456789''"
proof (induction n rule: digits.induct)
  case (1 n)
  show ?case
  proof (cases "n < 10")
    case True
    then show ?thesis
      using digit_char [of n] by (subst digits.simps) simp
  next
    case False
    have "n mod 10 < 10" by simp
    then have "''0123456789'' ! (n mod 10) \<in> set ''0123456789''"
      by (rule digit_char)
    with False "1.IH" show ?thesis
      by (subst digits.simps) simp
  qed
qed

lemma digits_nonempty: "digits n \<noteq> []"
  by (subst digits.simps) simp

lemma digits_one: "n < 10 \<Longrightarrow> digits n = [''0123456789'' ! n]"
  by (subst digits.simps) simp

lemma nearest_tenth:
  fixes a :: real
  assumes "0 \<le> a"
  shows "\<bar>real (nat \<lfloor>a * 10 + 1 / 2\<rfloor>) / 10 - a\<bar> \<le> 1 / 20"
proof -
  have "0 \<le> \<lfloor>a * 10 + 1 / 2\<rfloor>"
    using assms by simp
  then have "real (nat \<lfloor>a * 10 + 1 / 2\<rfloor>) = of_int \<lfloor>a * 10 + 1 / 2\<rfloor>"
    by simp
  moreover have "of_int \<lfloor>a * 10 + 1 / 2\<rfloor> \<le> a * 10 + 1 / 2"
    "a * 10 + 1 / 2 < of_int \<lfloor>a * 10 + 1 / 2\<rfloor> + 1"
    by linarith+
  ultimately show ?thesis
    by linarith
qed

section \<open>The claims\<close>

subsection \<open>Filtering and pagination\<close>

text \<open>
  C1. The claim: the title filter is applied to the whole data set before the slice of the
  current page is taken, so that a filtered-out row never takes a page slot. The first
  page script slices first and hands the slice to the table, which filters what it is
  handed. With ten products titled "phone" followed by one titled "lamp" and the filter
  "lamp", page 1 of the table is empty, where the derivation of the claim shows the lamp
  on page 1; the lamp shows up on page 2 only, where the derivation of the claim has no
  row left.
\<close>

theorem filter_applied_after_slice:
  "tableRows ''lamp'' shop = [] \<and>
   map id' (spec_visibleRows ''lamp'' shop) = [11] \<and>
   map id' (tableRows ''lamp'' (shop\<lparr>currentPage := 2\<rparr>)) = [11] \<and>
   spec_visibleRows ''lamp'' (shop\<lparr>currentPage := 2\<rparr>) = []"
  by (simp add: tableRows_def spec_visibleRows_def title_filter_def paginatedData_def
        array_slice_def shop_def initial_def upto.simps sample_def)

subsection \<open>The page stays in range\<close>

text \<open>
  C2. The claim: whenever rows are loaded, \<open>pageIndex * pageSize\<close> does not exceed the
  row count minus one, and every operation keeps it so, a reload that replaces the data
  set included. The reload does not: it replaces \<^verbatim>\<open>data\<close> and leaves
  \<^verbatim>\<open>currentPage\<close> as it is. In the run in which the first load brings 25 products,
  the next page is asked for twice and a reload then brings 5 products, page 3 is in
  range before the reload and shows rows 21-25; after the reload there are rows, the
  page is still 3, its first row index 20 exceeds 4, its slice is empty, and neither the
  button for the next page nor the one for the previous page changes anything.
\<close>

theorem reload_leaves_page_out_of_range:
  "page_in_range on_page_3 \<and>
   currentPage on_page_3 = 3 \<and>
   map id' (paginatedData on_page_3) = [21, 22, 23, 24, 25] \<and>
   map id' (data after_reload) = [1, 2, 3, 4, 5] \<and>
   currentPage after_reload = 3 \<and>
   (currentPage after_reload - 1) * itemsPerPage after_reload = 20 \<and>
   int (length (data after_reload)) - 1 = 4 \<and>
   \<not> page_in_range after_reload \<and>
   paginatedData after_reload = [] \<and>
   changePage (currentPage after_reload + 1) after_reload = after_reload \<and>
   changePage (currentPage after_reload - 1) after_reload = after_reload"
proof -
  have first: "timeout_callback
       (fetchProducts [] (Products (map (\<lambda>i. sample i ''phone'') [1..25])) initial) =
     initial\<lparr>data := map (\<lambda>i. sample i ''phone'') [1..25], loading := False,
       progress := 100, progressInterval := Some 1, next_timer := 2\<rparr>"
    by (simp add: timeout_callback_def fetchProducts_def fetchProducts_begin_def
          setInterval_def Let_def fetchProducts_settle_def fetchProducts_finally_def
          clearInterval_def initial_def)
  have p3: "on_page_3 =
     initial\<lparr>data := map (\<lambda>i. sample i ''phone'') [1..25], loading := False,
       progress := 100, progressInterval := Some 1, next_timer := 2, currentPage := 3\<rparr>"
    unfolding on_page_3_def first
    by (simp add: changePage_def totalPages_def initial_def)
  have re: "after_reload =
     initial\<lparr>data := map (\<lambda>i. sample i ''phone'') [1..5], loading := False,
       progress := 100, progressInterval := Some 2, next_timer := 3, currentPage := 3\<rparr>"
    unfolding after_reload_def p3
    by (simp add: timeout_callback_def fetchProducts_def fetchProducts_begin_def
          setInterval_def Let_def fetchProducts_settle_def fetchProducts_finally_def
          clearInterval_def initial_def)
  have "page_in_range on_page_3" "currentPage on_page_3 = 3"
    "currentPage after_reload = 3"
    "(currentPage after_reload - 1) * itemsPerPage after_reload = 20"
    "int (length (data after_reload)) - 1 = 4"
    "\<not> page_in_range after_reload"
    by (simp_all add: p3 re page_in_range_def initial_def)
  moreover have "map id' (paginatedData on_page_3) = [21, 22, 23, 24, 25]"
    by (simp add: p3 paginatedData_def array_slice_def initial_def upto.simps sample_def)
  moreover have "map id' (data after_reload) = [1, 2, 3, 4, 5]"
    by (simp add: re upto.simps sample_def)
  moreover have "paginatedData after_reload = []"
    by (simp add: re paginatedData_def array_slice_def initial_def)
  moreover have "changePage (currentPage after_reload + 1) after_reload = after_reload"
    "changePage (currentPage after_reload - 1) after_reload = after_reload"
    by (simp_all add: re changePage_def totalPages_def initial_def)
  ultimately show ?thesis
    by simp
qed

subsection \<open>A failed load\<close>

text \<open>
  Against C3 as stated: the loader of the third page script records no notification when
  the request fails; it writes to the console only.
\<close>

theorem failed_load_counterexample:
  "toasts (fetchProducts3 FetchRejected (loaded 25)) = [] \<and>
   console (fetchProducts3 FetchRejected (loaded 25)) = [''Error fetching products:'']"
  by (simp add: fetchProducts3_def loaded_def initial_def)

text \<open>
  C3, amended. If the fetch or the parse of a load fails, the load leaves the product
  list as it was before the call and ends with the loading flag false. In the scripts of
  index.vue the failure path adds one error toast and one console entry, sets the loading
  flag to false and disarms the timer whose handle is stored, and changes nothing else.
  In the script of part_000 the failure path adds one console entry and sets the loading
  flag to false, and changes nothing else: no notification is recorded there.
\<close>

theorem failed_load_keeps_data:
  assumes "outcome = FetchRejected \<or> outcome = JsonRejected"
  shows "data (fetchProducts rs outcome s) = data s \<and>
         loading (fetchProducts rs outcome s) = False \<and>
         toasts (fetchProducts rs outcome s) = toasts s @ [error_toast] \<and>
         fetchProducts_settle outcome s =
           s\<lparr>console := console s @ [''Error fetching products:''],
             toasts := toasts s @ [error_toast], loading := False,
             intervals := intervals s - set_option (progressInterval s)\<rparr> \<and>
         fetchProducts3 outcome s =
           s\<lparr>console := console s @ [''Error fetching products:''], loading := False\<rparr>"
proof -
  let ?t = "fold (tick (next_timer s)) rs (fetchProducts_begin s)"
  have e: "fetchProducts rs outcome s =
      ?t\<lparr>console := console ?t @ [''Error fetching products:''],
         toasts := toasts ?t @ [error_toast], loading := False,
         intervals := intervals ?t - set_option (progressInterval ?t)\<rparr>"
    unfolding fetchProducts_def by (rule settle_failed [OF assms])
  have "data (fetchProducts rs outcome s) = data s"
    by (simp add: e data_ticks fetchProducts_begin_fields)
  moreover have "loading (fetchProducts rs outcome s) = False"
    by (simp add: e)
  moreover have "toasts (fetchProducts rs outcome s) = toasts s @ [error_toast]"
    by (simp add: e toasts_ticks fetchProducts_begin_fields)
  moreover have "fetchProducts3 outcome s =
           s\<lparr>console := console s @ [''Error fetching products:''], loading := False\<rparr>"
    using assms by (auto simp: fetchProducts3_def)
  ultimately show ?thesis
    using settle_failed [OF assms, of s] by simp
qed

theorem failed_load_keeps_data_witness:
  "data (fetchProducts [1/2] JsonRejected (loaded 25)) = data (loaded 25) \<and>
   loading (fetchProducts [1/2] JsonRejected (loaded 25)) = False \<and>
   toasts (fetchProducts [1/2] JsonRejected (loaded 25)) = [error_toast]"
  using failed_load_keeps_data [of JsonRejected "[1/2]" "loaded 25"]
  by (simp add: loaded_def initial_def)

subsection \<open>Page navigation\<close>

text \<open>
  C4. With a positive page size, \<open>changePage p\<close> sets the current page to \<open>p\<close> exactly
  when \<open>1 \<le> p \<le> ceil(rowCount / pageSize)\<close> and changes nothing for every other \<open>p\<close>.
  For any list of 25 products and page size 10, page 1 shows the first ten rows, page 3
  shows exactly the five rows 21-25, and a request for page 4 made on page 3 leaves the
  state as it is.
\<close>

theorem changePage_guard_and_scenario:
  "(0 < itemsPerPage s \<longrightarrow>
     (1 \<le> p \<and> p \<le> \<lceil>real (length (data s)) / real_of_int (itemsPerPage s)\<rceil>
        \<longrightarrow> changePage p s = s\<lparr>currentPage := p\<rparr>) \<and>
     (\<not> (1 \<le> p \<and> p \<le> \<lceil>real (length (data s)) / real_of_int (itemsPerPage s)\<rceil>)
        \<longrightarrow> changePage p s = s)) \<and>
   (length (data t) = 25 \<and> itemsPerPage t = 10 \<longrightarrow>
     paginatedData (t\<lparr>currentPage := 1\<rparr>) = take 10 (data t) \<and>
     paginatedData (t\<lparr>currentPage := 3\<rparr>) = drop 20 (data t) \<and>
     length (paginatedData (t\<lparr>currentPage := 3\<rparr>)) = 5 \<and>
     changePage 4 (t\<lparr>currentPage := 3\<rparr>) = t\<lparr>currentPage := 3\<rparr>)"
proof (intro conjI impI)
  assume "1 \<le> p \<and> p \<le> \<lceil>real (length (data s)) / real_of_int (itemsPerPage s)\<rceil>"
    and "0 < itemsPerPage s"
  then show "changePage p s = s\<lparr>currentPage := p\<rparr>"
    by (simp add: changePage_def totalPages_def)
next
  assume "\<not> (1 \<le> p \<and> p \<le> \<lceil>real (length (data s)) / real_of_int (itemsPerPage s)\<rceil>)"
    and "0 < itemsPerPage s"
  then show "changePage p s = s"
    by (auto simp: changePage_def totalPages_def)
next
  assume "length (data t) = 25 \<and> itemsPerPage t = 10"
  then show "paginatedData (t\<lparr>currentPage := 1\<rparr>) = take 10 (data t)"
    by (simp add: paginatedData_def array_slice_nonneg)
next
  assume "length (data t) = 25 \<and> itemsPerPage t = 10"
  then show "paginatedData (t\<lparr>currentPage := 3\<rparr>) = drop 20 (data t)"
    by (simp add: paginatedData_def array_slice_nonneg)
next
  assume "length (data t) = 25 \<and> itemsPerPage t = 10"
  then show "length (paginatedData (t\<lparr>currentPage := 3\<rparr>)) = 5"
    by (simp add: paginatedData_def array_slice_nonneg)
next
  assume "length (data t) = 25 \<and> itemsPerPage t = 10"
  then have "\<not> js_le 4 (totalPages (t\<lparr>currentPage := 3\<rparr>))"
    by (simp add: js_le_totalPages)
  then show "changePage 4 (t\<lparr>currentPage := 3\<rparr>) = t\<lparr>currentPage := 3\<rparr>"
    by (simp add: changePage_def)
qed

theorem changePage_guard_and_scenario_witness:
  "changePage 2 (loaded 25) = (loaded 25)\<lparr>currentPage := 2\<rparr> \<and>
   map id' (paginatedData ((loaded 25)\<lparr>currentPage := 3\<rparr>)) = [21, 22, 23, 24, 25] \<and>
   changePage 4 ((loaded 25)\<lparr>currentPage := 3\<rparr>) = (loaded 25)\<lparr>currentPage := 3\<rparr>"
proof -
  have len: "length (data (loaded 25)) = 25" and size: "itemsPerPage (loaded 25) = 10"
    by (simp_all add: loaded_def initial_def)
  have rows: "map id' (drop 20 (data (loaded 25))) = [21, 22, 23, 24, 25]"
    by code_simp
  from changePage_guard_and_scenario [of "loaded 25" 2 "loaded 25"] len size rows
  show ?thesis by simp
qed

subsection \<open>Selection\<close>

text \<open>
  C5. The claim: setting the selection of a row adds or removes exactly the id of that
  product, and the rows selected do not depend on the page shown. The table is handed
  the slice of the current page, so that the selection holds positions in the slice:
  with 25 products loaded, selecting the third row of page 1 (product 3) stores the row
  id 2; the set of row ids stays the same when the page changes, and with it product 13
  shows selected on page 2 and product 23 on page 3, neither of which was ever selected;
  back on page 1 product 3 shows selected again.
\<close>

theorem selection_follows_page_slot:
  "rowSelection (toggleSelected True 2 (loaded 25)) = {2} \<and>
   map id' (selectedRows (toggleSelected True 2 (loaded 25))) = [3] \<and>
   rowSelection (changePage 2 (toggleSelected True 2 (loaded 25))) = {2} \<and>
   map id' (selectedRows (changePage 2 (toggleSelected True 2 (loaded 25)))) = [13] \<and>
   getIsSelected 2 (changePage 2 (toggleSelected True 2 (loaded 25))) \<and>
   map id' (selectedRows (changePage 3 (toggleSelected True 2 (loaded 25)))) = [23] \<and>
   map id' (selectedRows (changePage 1 (changePage 2 (toggleSelected True 2 (loaded 25)))))
     = [3]"
proof -
  have sel: "toggleSelected True 2 (loaded 25) = (loaded 25)\<lparr>rowSelection := {2}\<rparr>"
    by (simp add: toggleSelected_def getRowId_def paginatedData_def array_slice_def
          loaded_def initial_def)
  have pages: "changePage n ((loaded 25)\<lparr>rowSelection := {2}\<rparr>) =
      (loaded 25)\<lparr>rowSelection := {2}, currentPage := n\<rparr>" if "n \<in> {1, 2, 3}" for n
    using that by (auto simp: changePage_def totalPages_def loaded_def initial_def)
  have return: "changePage 1 ((loaded 25)\<lparr>rowSelection := {2}, currentPage := 2\<rparr>) =
      (loaded 25)\<lparr>rowSelection := {2}, currentPage := 1\<rparr>"
    by (simp add: changePage_def totalPages_def loaded_def initial_def)
  have r1: "map id' (selectedRows ((loaded 25)\<lparr>rowSelection := {2}, currentPage := 1\<rparr>)) = [3]"
    by (simp add: selectedRows_def getRowId_def paginatedData_def array_slice_def
          loaded_def initial_def upto.simps sample_def)
  have r2: "map id' (selectedRows ((loaded 25)\<lparr>rowSelection := {2}, currentPage := 2\<rparr>)) = [13]"
    by (simp add: selectedRows_def getRowId_def paginatedData_def array_slice_def
          loaded_def initial_def upto.simps sample_def)
  have r3: "map id' (selectedRows ((loaded 25)\<lparr>rowSelection := {2}, currentPage := 3\<rparr>)) = [23]"
    by (simp add: selectedRows_def getRowId_def paginatedData_def array_slice_def
          loaded_def initial_def upto.simps sample_def)
  have "map id' (selectedRows (toggleSelected True 2 (loaded 25))) = [3]"
    using r1 by (simp add: sel) (simp add: loaded_def initial_def)
  moreover have "getIsSelected 2 (changePage 2 (toggleSelected True 2 (loaded 25)))"
    by (simp add: sel pages)
       (simp add: getIsSelected_def getRowId_def paginatedData_def array_slice_def
          loaded_def initial_def)
  ultimately show ?thesis
    using r1 r2 r3 by (simp add: sel pages return)
qed

subsection \<open>The progress timer\<close>

text \<open>
  Against C6 as stated: after the component was mounted and taken off the page again
  while the request is pending, the timer of the load is still armed, and its next tick
  fires and moves the progress value.
\<close>

theorem timer_after_teardown_counterexample:
  "1 \<in> intervals (unmount (onMounted initial)) \<and>
   progress (unmount (onMounted initial)) = 0 \<and>
   progress (tick 1 (1/2) (unmount (onMounted initial))) = 15/2"
  by (simp add: unmount_def onMounted_def fetchProducts_begin_def setInterval_def initial_def
       tick_def progress_callback_def Let_def)

text \<open>
  C6, amended. The start of a load arms a timer. Provided no other load is started
  between the start of the load and its settlement: when the load settles, by success or
  by failure, that timer is disarmed, and it stays disarmed whatever happens later, so
  that none of its ticks fires any more; and before the settlement, a tick of the timer
  that brings the progress value to the cap of 95 disarms it too. Taking the component
  off the page disarms no timer: the timers armed before it are the timers armed after
  it.
\<close>

theorem load_timer_cancelled_on_settle:
  assumes "\<forall>e \<in> set es. \<not> is_Load e"
  shows "next_timer s \<in> intervals (fetchProducts_begin s) \<and>
         next_timer s \<notin> intervals
           (fold (apply_event sort_fn) es'
              (fetchProducts_settle outcome
                 (fold (apply_event sort_fn) es (fetchProducts_begin s)))) \<and>
         tick (next_timer s) r
           (fold (apply_event sort_fn) es'
              (fetchProducts_settle outcome
                 (fold (apply_event sort_fn) es (fetchProducts_begin s)))) =
           fold (apply_event sort_fn) es'
              (fetchProducts_settle outcome
                 (fold (apply_event sort_fn) es (fetchProducts_begin s))) \<and>
         (95 \<le> progress (fold (apply_event sort_fn) es (fetchProducts_begin s)) + r * 15 \<longrightarrow>
            next_timer s \<notin> intervals
              (tick (next_timer s) r (fold (apply_event sort_fn) es (fetchProducts_begin s)))) \<and>
         intervals (unmount s) = intervals s"
proof -
  let ?h = "next_timer s"
  let ?t = "fold (apply_event sort_fn) es (fetchProducts_begin s)"
  let ?u = "fetchProducts_settle outcome ?t"
  have stored: "progressInterval ?t = Some ?h"
    using assms by (simp add: progressInterval_events fetchProducts_begin_fields)
  then have off: "?h \<notin> intervals ?u"
    by (rule settle_disarms)
  have "Suc ?h \<le> next_timer ?t"
    using next_timer_events [of "fetchProducts_begin s" sort_fn es]
    by (simp add: fetchProducts_begin_fields)
  then have "?h < next_timer ?u"
    by (simp add: next_timer_settle)
  then have never: "?h \<notin> intervals (fold (apply_event sort_fn) es' ?u)"
    using off by (rule disarmed_stays)
  then have "tick ?h r (fold (apply_event sort_fn) es' ?u) = fold (apply_event sort_fn) es' ?u"
    by (simp add: tick_def)
  moreover have "?h \<in> intervals (fetchProducts_begin s)"
    by (simp add: fetchProducts_begin_fields)
  moreover have "95 \<le> progress ?t + r * 15 \<longrightarrow> ?h \<notin> intervals (tick ?h r ?t)"
    using cap_disarms [OF stored] by simp
  moreover have "intervals (unmount s) = intervals s"
    by (simp add: unmount_def)
  ultimately show ?thesis
    using never by simp
qed

theorem load_timer_cancelled_on_settle_witness:
  "1 \<in> intervals (fold (apply_event insertion_sort)
        [Tick 1 (9/10), Tick 1 (9/10), Tick 1 (9/10), Tick 1 (9/10), Tick 1 (9/10),
         Tick 1 (9/10),
         Tick 1 (9/10), Unmount] (fetchProducts_begin initial)) \<and>
   1 \<notin> intervals (tick 1 (9/10) (fold (apply_event insertion_sort)
        [Tick 1 (9/10), Tick 1 (9/10), Tick 1 (9/10), Tick 1 (9/10), Tick 1 (9/10),
         Tick 1 (9/10),
         Tick 1 (9/10), Unmount] (fetchProducts_begin initial))) \<and>
   1 \<notin> intervals (fold (apply_event insertion_sort) [Load, Tick 2 (1/2)]
     (fetchProducts_settle (Products [])
        (fold (apply_event insertion_sort)
           [Tick 1 (9/10), Tick 1 (9/10), Tick 1 (9/10), Tick 1 (9/10), Tick 1 (9/10),
         Tick 1 (9/10),
            Tick 1 (9/10), Unmount] (fetchProducts_begin initial))))"
proof -
  have t: "fold (apply_event insertion_sort)
        [Tick 1 (9/10), Tick 1 (9/10), Tick 1 (9/10), Tick 1 (9/10), Tick 1 (9/10),
         Tick 1 (9/10),
         Tick 1 (9/10), Unmount] (fetchProducts_begin initial) =
      initial\<lparr>progress := 189/2, progressInterval := Some 1, intervals := {1},
        next_timer := 2, mounted := False\<rparr>"
    by (simp add: fetchProducts_begin_def setInterval_def Let_def initial_def tick_def
          progress_callback_def unmount_def)
  note w = load_timer_cancelled_on_settle
      [of "[Tick 1 (9/10), Tick 1 (9/10), Tick 1 (9/10), Tick 1 (9/10), Tick 1 (9/10),
            Tick 1 (9/10), Tick 1 (9/10), Unmount]" initial insertion_sort
          "[Load, Tick 2 (1/2)]" "Products []" "9/10"]
  show ?thesis
    unfolding t using w [unfolded t] by (simp add: initial_def)
qed

subsection \<open>The progress value\<close>

text \<open>
  C7. Every run of the timer callback, in either script of index.vue, leaves the
  progress value at most 95, so strictly below 100; with a random value in \<open>[0, 1)\<close> and
  a progress value not above the cap, a tick does not lower the value and adds less than
  15. After the start of a load and any number of ticks of its timer the value is below
  100, and when the load succeeds the value is exactly 100.
\<close>

theorem progress_capped_then_100:
  "progress (progress_callback r s) \<le> 95 \<and>
   progress (progress_callback2 r s) \<le> 95 \<and>
   (0 \<le> r \<and> r < 1 \<and> progress s \<le> 95 \<longrightarrow>
      progress s \<le> progress (progress_callback r s) \<and>
      progress (progress_callback r s) < progress s + 15) \<and>
   progress (fold (tick (next_timer s)) rs (fetchProducts_begin s)) < 100 \<and>
   progress (fetchProducts rs (Products ps) s) = 100"
proof (intro conjI impI)
  show "progress (progress_callback r s) \<le> 95"
    by (rule progress_callback_le)
  show "progress (progress_callback2 r s) \<le> 95"
    by (rule progress_callback2_le)
  have "progress (fold (tick (next_timer s)) rs (fetchProducts_begin s)) \<le> 95"
    by (rule progress_ticks_le) (simp add: fetchProducts_begin_fields)
  then show "progress (fold (tick (next_timer s)) rs (fetchProducts_begin s)) < 100"
    by simp
  show "progress (fetchProducts rs (Products ps) s) = 100"
    by (simp add: fetchProducts_def progress_settle_ok)
next
  assume r: "0 \<le> r \<and> r < 1 \<and> progress s \<le> 95"
  then show "progress s \<le> progress (progress_callback r s)"
    by (simp add: progress_callback_def Let_def progress_clearInterval min_def)
  from r show "progress (progress_callback r s) < progress s + 15"
    by (simp add: progress_callback_def Let_def progress_clearInterval min_def)
qed

theorem progress_capped_then_100_witness:
  "progress (progress_callback (1/2) initial) = 15/2 \<and>
   progress (fetchProducts [1/2, 1/5] (Products []) initial) = 100"
  using progress_capped_then_100 [of "1/2" initial "[1/2, 1/5]" "[]"]
  by (simp add: initial_def progress_callback_def)

subsection \<open>The panel of an expanded row\<close>

text \<open>
  C8. The panel of an expanded row shows the first \<open>min 3 (number of images)\<close> images of
  the record in their stored order, numbered from 1, the discount percentage of the
  record and its stock; the stock badge has the high-stock colour exactly when the stock
  is above 50 and the low-stock colour otherwise. The panel is computed from the record
  alone, and every row of the current page is a record of the loaded data.
\<close>

theorem expanded_panel_contents:
  "map img_src (panel_images (expanded p)) = take 3 (images p) \<and>
   length (panel_images (expanded p)) = min 3 (length (images p)) \<and>
   map img_alt_number (panel_images (expanded p)) = [1 ..< Suc (min 3 (length (images p)))] \<and>
   panel_discount (expanded p) = discountPercentage p \<and>
   panel_stock (expanded p) = stock p \<and>
   (panel_stock_color (expanded p) = ''success'') = (stock p > 50) \<and>
   (panel_stock_color (expanded p) = ''warning'') = (stock p \<le> 50) \<and>
   (p \<in> set (paginatedData s) \<longrightarrow> p \<in> set (data s))"
proof -
  have "length (map img_src (panel_images (expanded p))) = min 3 (length (images p))"
    unfolding expanded_sources by (simp add: min.commute)
  then have "length (panel_images (expanded p)) = min 3 (length (images p))"
    by simp
  moreover have "p \<in> set (paginatedData s) \<longrightarrow> p \<in> set (data s)"
    using set_array_slice [of "data s"] by (auto simp: paginatedData_def Let_def)
  moreover have "(panel_stock_color (expanded p) = ''success'') = (stock p > 50)"
    "(panel_stock_color (expanded p) = ''warning'') = (stock p \<le> 50)"
    "panel_discount (expanded p) = discountPercentage p"
    "panel_stock (expanded p) = stock p"
    by (auto simp: expanded_def)
  ultimately show ?thesis
    using expanded_sources expanded_numbers by simp
qed

theorem expanded_panel_contents_witness:
  "sample 1 ''phone'' \<in> set (paginatedData (loaded 1)) \<and>
   sample 1 ''phone'' \<in> set (data (loaded 1)) \<and>
   map img_src (panel_images
     (expanded ((sample 1 ''phone'')\<lparr>images := [''a'', ''b'', ''c'', ''d'']\<rparr>))) = [''a'', ''b'', ''c''] \<and>
   panel_stock_color (expanded ((sample 1 ''phone'')\<lparr>stock := 50\<rparr>)) = ''warning''"
proof -
  have "sample 1 ''phone'' \<in> set (paginatedData (loaded 1))"
    by (simp add: paginatedData_def array_slice_def loaded_def initial_def upto.simps)
  then show ?thesis
    using expanded_panel_contents [of "sample 1 ''phone''" "loaded 1"]
      expanded_panel_contents [of "(sample 1 ''phone'')\<lparr>images := [''a'', ''b'', ''c'', ''d'']\<rparr>"]
      expanded_panel_contents [of "(sample 1 ''phone'')\<lparr>stock := 50\<rparr>"]
    by (simp add: sample_def)
qed

subsection \<open>The rating cell\<close>

text \<open>
  C9. The rating cell carries the positive class if and only if the rating is at least
  4.5, and the negative class otherwise. For a rating of magnitude below \<open>10^21\<close> its
  text is the sign, the digits of an integer part, a point and exactly one digit, and the
  number written is the tenth nearest to the rating: it differs from the magnitude of the
  rating by at most one twentieth.
\<close>

theorem rating_cell_format:
  "(cell_class (rating_cell p) = ''font-medium text-green-500'') = (rating p \<ge> 4.5) \<and>
   (cell_class (rating_cell p) = ''font-medium text-red-500'') = (\<not> rating p \<ge> 4.5) \<and>
   (\<bar>rating p\<bar> < 10 ^ 21 \<longrightarrow>
      cell_text (rating_cell p) =
        Some ((if rating p < 0 then ''-'' else [])
              @ digits (nat \<lfloor>\<bar>rating p\<bar> * 10 + 1 / 2\<rfloor> div 10)
              @ ''.'' @ [''0123456789'' ! (nat \<lfloor>\<bar>rating p\<bar> * 10 + 1 / 2\<rfloor> mod 10)]) \<and>
      ''0123456789'' ! (nat \<lfloor>\<bar>rating p\<bar> * 10 + 1 / 2\<rfloor> mod 10) \<in> set ''0123456789'' \<and>
      digits (nat \<lfloor>\<bar>rating p\<bar> * 10 + 1 / 2\<rfloor> div 10) \<noteq> [] \<and>
      set (digits (nat \<lfloor>\<bar>rating p\<bar> * 10 + 1 / 2\<rfloor> div 10)) \<subseteq> set ''0123456789'' \<and>
      \<bar>real (nat \<lfloor>\<bar>rating p\<bar> * 10 + 1 / 2\<rfloor>) / 10 - \<bar>rating p\<bar>\<bar> \<le> 1 / 20)"
proof (intro conjI impI)
  show "(cell_class (rating_cell p) = ''font-medium text-green-500'') = (rating p \<ge> 4.5)"
    by (simp add: rating_cell_def)
  show "(cell_class (rating_cell p) = ''font-medium text-red-500'') = (\<not> rating p \<ge> 4.5)"
    by (simp add: rating_cell_def)
  show "''0123456789'' ! (nat \<lfloor>\<bar>rating p\<bar> * 10 + 1 / 2\<rfloor> mod 10) \<in> set ''0123456789''"
    by (rule digit_char) simp
  show "digits (nat \<lfloor>\<bar>rating p\<bar> * 10 + 1 / 2\<rfloor> div 10) \<noteq> []"
    by (rule digits_nonempty)
  show "set (digits (nat \<lfloor>\<bar>rating p\<bar> * 10 + 1 / 2\<rfloor> div 10)) \<subseteq> set ''0123456789''"
    by (rule set_digits)
  show "\<bar>real (nat \<lfloor>\<bar>rating p\<bar> * 10 + 1 / 2\<rfloor>) / 10 - \<bar>rating p\<bar>\<bar> \<le> 1 / 20"
    by (rule nearest_tenth) simp
next
  assume "\<bar>rating p\<bar> < 10 ^ 21"
  then show "cell_text (rating_cell p) =
        Some ((if rating p < 0 then ''-'' else [])
              @ digits (nat \<lfloor>\<bar>rating p\<bar> * 10 + 1 / 2\<rfloor> div 10)
              @ ''.'' @ [''0123456789'' ! (nat \<lfloor>\<bar>rating p\<bar> * 10 + 1 / 2\<rfloor> mod 10)])"
    by (simp add: rating_cell_def toFixed1_def Let_def digits_one)
qed

theorem rating_cell_format_witness:
  "rating_cell ((sample 1 ''phone'')\<lparr>rating := 4.69\<rparr>) =
     \<lparr>cell_class = ''font-medium text-green-500'', cell_text = Some ''4.7''\<rparr>"
  using rating_cell_format [of "(sample 1 ''phone'')\<lparr>rating := 4.69\<rparr>"]
  by (simp add: sample_def digits.simps rating_cell_def)

subsection \<open>The shuffle\<close>

text \<open>
  C10. The shuffle replaces the data set by a permutation of itself: on every platform
  whose sort returns a rearrangement of the array it is called on, whatever the
  comparator answers, the new list has the same records with the same multiplicities,
  hence the same set of records and the same length, whatever the random values are, and
  nothing but the data set changes in the state.
\<close>

theorem randomize_permutes:
  assumes "\<And>comparefn xs. mset (sort_fn comparefn xs) = mset xs"
  shows "mset (data (randomize sort_fn rnd s)) = mset (data s) \<and>
         set (data (randomize sort_fn rnd s)) = set (data s) \<and>
         length (data (randomize sort_fn rnd s)) = length (data s) \<and>
         randomize sort_fn rnd s = s\<lparr>data := data (randomize sort_fn rnd s)\<rparr>"
proof -
  have m: "mset (data (randomize sort_fn rnd s)) = mset (data s)"
    by (simp add: data_randomize assms)
  from m have "set (data (randomize sort_fn rnd s)) = set (data s)"
    by (rule mset_eq_setD)
  moreover from m have "length (data (randomize sort_fn rnd s)) = length (data s)"
    by (rule mset_eq_length)
  moreover have "randomize sort_fn rnd s = s\<lparr>data := data (randomize sort_fn rnd s)\<rparr>"
    by (simp add: randomize_def)
  ultimately show ?thesis using m by simp
qed

theorem randomize_permutes_witness:
  "mset (data (randomize insertion_sort (\<lambda>k. if even k then 9/10 else 1/10) (loaded 4))) =
     mset (data (loaded 4)) \<and>
   length (data (randomize insertion_sort (\<lambda>k. if even k then 9/10 else 1/10) (loaded 4))) = 4"
  using randomize_permutes
    [of insertion_sort "\<lambda>k. if even k then 9/10 else 1/10" "loaded 4",
     OF mset_insertion_sort]
  by (simp add: loaded_def initial_def)

end
